theory Spec2Isabelle
  imports Complex_Main "HOL-Library.Multiset" "HOL-Library.Char_ord" "HOL-Library.List_Lexorder"
begin

section \<open>JavaScript numbers\<close>

text \<open>
  The analytics engine of the task tracker: per-task ROI, the ranking, the aggregate
  metrics, and the time-series functions.  The repository holds the module in two
  copies; where they differ, the function of the second copy carries the suffix \<open>_B\<close>.

  The engine computes on JavaScript numbers, which are IEEE 754 doubles.  NaN and the
  two infinities are constructors of their own and a finite number is a real.  A sum,
  product or quotient of finite numbers overflows to an infinity when its exact value
  reaches \<open>2^1024 - 2^970\<close> in magnitude, the point from which a double rounds to
  infinity; below that the exact value is kept (rounding inside the finite range,
  underflow included, and the sign of zero are not part of this model).
\<close>

datatype jsnum = Fin real | PInf | NInf | NaN

definition overflow_threshold :: real where
  "overflow_threshold = 2 ^ 1024 - 2 ^ 970"

definition in_range :: "real \<Rightarrow> bool" where
  "in_range r = (\<bar>r\<bar> < overflow_threshold)"

text \<open>The double for the exact result \<open>r\<close> of an operation on finite numbers.\<close>

definition fin :: "real \<Rightarrow> jsnum" where
  "fin r = (if overflow_threshold \<le> r then PInf
            else if r \<le> - overflow_threshold then NInf
            else Fin r)"

fun isFinite :: "jsnum \<Rightarrow> bool" where
  "isFinite (Fin _) = True"
| "isFinite _ = False"

fun jneg :: "jsnum \<Rightarrow> jsnum" where
  "jneg (Fin a) = Fin (- a)"
| "jneg PInf = NInf"
| "jneg NInf = PInf"
| "jneg NaN = NaN"

fun jadd :: "jsnum \<Rightarrow> jsnum \<Rightarrow> jsnum" where
  "jadd (Fin a) (Fin b) = fin (a + b)"
| "jadd NaN _ = NaN"
| "jadd _ NaN = NaN"
| "jadd PInf NInf = NaN"
| "jadd NInf PInf = NaN"
| "jadd PInf _ = PInf"
| "jadd _ PInf = PInf"
| "jadd NInf _ = NInf"
| "jadd _ NInf = NInf"

definition jsub :: "jsnum \<Rightarrow> jsnum \<Rightarrow> jsnum" where
  "jsub a b = jadd a (jneg b)"

text \<open>The sign of a product or quotient with an infinite operand.\<close>

definition signed_inf :: "bool \<Rightarrow> jsnum" where
  "signed_inf positive = (if positive then PInf else NInf)"

fun jmul :: "jsnum \<Rightarrow> jsnum \<Rightarrow> jsnum" where
  "jmul (Fin a) (Fin b) = fin (a * b)"
| "jmul NaN _ = NaN"
| "jmul _ NaN = NaN"
| "jmul (Fin a) PInf = (if a = 0 then NaN else signed_inf (0 < a))"
| "jmul (Fin a) NInf = (if a = 0 then NaN else signed_inf (a < 0))"
| "jmul PInf (Fin b) = (if b = 0 then NaN else signed_inf (0 < b))"
| "jmul NInf (Fin b) = (if b = 0 then NaN else signed_inf (b < 0))"
| "jmul PInf PInf = PInf"
| "jmul PInf NInf = NInf"
| "jmul NInf PInf = NInf"
| "jmul NInf NInf = PInf"

fun jdiv :: "jsnum \<Rightarrow> jsnum \<Rightarrow> jsnum" where
  "jdiv (Fin a) (Fin b) =
     (if b \<noteq> 0 then fin (a / b)
      else if a = 0 then NaN else signed_inf (0 < a))"
| "jdiv NaN _ = NaN"
| "jdiv _ NaN = NaN"
| "jdiv (Fin a) PInf = Fin 0"
| "jdiv (Fin a) NInf = Fin 0"
| "jdiv PInf (Fin b) = signed_inf (0 \<le> b)"
| "jdiv NInf (Fin b) = signed_inf (b < 0)"
| "jdiv PInf PInf = NaN"
| "jdiv PInf NInf = NaN"
| "jdiv NInf PInf = NaN"
| "jdiv NInf NInf = NaN"

text \<open>\<open>a < b\<close> and \<open>a <= b\<close>: every comparison with NaN is false.\<close>

fun jlt :: "jsnum \<Rightarrow> jsnum \<Rightarrow> bool" where
  "jlt (Fin a) (Fin b) = (a < b)"
| "jlt NaN _ = False"
| "jlt _ NaN = False"
| "jlt NInf NInf = False"
| "jlt NInf _ = True"
| "jlt _ NInf = False"
| "jlt PInf _ = False"
| "jlt _ PInf = True"

definition jle :: "jsnum \<Rightarrow> jsnum \<Rightarrow> bool" where
  "jle a b = (a \<noteq> NaN \<and> b \<noteq> NaN \<and> (jlt a b \<or> a = b))"

text \<open>\<open>a !== b\<close> on numbers: NaN differs from everything, itself included.\<close>

definition strict_neq :: "jsnum \<Rightarrow> jsnum \<Rightarrow> bool" where
  "strict_neq a b = (a = NaN \<or> b = NaN \<or> a \<noteq> b)"

text \<open>\<open>Math.max(a, b)\<close>: NaN as soon as one argument is NaN.\<close>

definition math_max :: "jsnum \<Rightarrow> jsnum \<Rightarrow> jsnum" where
  "math_max a b = (if a = NaN \<or> b = NaN then NaN else if jlt a b then b else a)"

text \<open>\<open>xs.reduce((s, v) => s + v, 0)\<close>: a left fold from 0.\<close>

definition reduce_sum :: "jsnum list \<Rightarrow> jsnum" where
  "reduce_sum xs = foldl jadd (Fin 0) xs"

section \<open>Tasks\<close>

text \<open>
  The fields of \<open>Task\<close> and \<open>DerivedTask\<close> as the engine and its callers use them.
  \<open>priority\<close> and \<open>status\<close> are the strings the code compares with \<open>===\<close>, so a
  value outside the three expected ones can be written down.  A timestamp is held as
  the time value (milliseconds since the epoch, UTC) that \<open>new Date(iso).getTime()\<close>
  yields for it; parsing ISO text is a built-in and is not modelled.  An absent
  \<open>completedAt\<close> is \<open>None\<close>.  The free-text field for remarks, which the engine never
  reads, is left out.
\<close>

record task =
  task_id :: string
  title :: string
  revenue :: jsnum
  timeTaken :: jsnum
  priority :: string
  status :: string
  createdAt :: int
  completedAt :: "int option"

record derivedTask = task +
  roi :: "jsnum option"
  priorityWeight :: int

section \<open>ROI and derived fields\<close>

definition computeROI :: "jsnum \<Rightarrow> jsnum \<Rightarrow> jsnum option" where
  "computeROI r t =
     (if \<not> isFinite r \<or> \<not> isFinite t \<or> jle t (Fin 0) then None
      else Some (jdiv r t))"

definition computePriorityWeight :: "string \<Rightarrow> int" where
  "computePriorityWeight p =
     (if p = ''High'' then 3 else if p = ''Medium'' then 2 else 1)"

definition withDerived :: "task \<Rightarrow> derivedTask" where
  "withDerived t =
     \<lparr> task_id = task_id t, title = title t, revenue = revenue t,
       timeTaken = timeTaken t, priority = priority t, status = status t,
       createdAt = createdAt t, completedAt = completedAt t,
       roi = computeROI (revenue t) (timeTaken t),
       priorityWeight = computePriorityWeight (priority t) \<rparr>"

section \<open>Array.prototype.sort\<close>

text \<open>
  \<open>xs.sort(cmp)\<close> is stable; \<open>cmp(a, b) > 0\<close> puts \<open>a\<close> after \<open>b\<close>, and a comparator
  result of NaN is read as \<open>+0\<close>.  The model is the stable insertion sort: each element is
  put in front of the first element it does not have to follow.  (ECMAScript fixes the
  result only for a consistent comparator; for such a comparator every stable sort
  returns this list.)
\<close>

definition sorts_after :: "jsnum \<Rightarrow> bool" where
  "sorts_after v = jlt (Fin 0) v"

fun insert_by :: "('a \<Rightarrow> 'a \<Rightarrow> jsnum) \<Rightarrow> 'a \<Rightarrow> 'a list \<Rightarrow> 'a list" where
  "insert_by cmp x [] = [x]"
| "insert_by cmp x (y # ys) =
     (if sorts_after (cmp x y) then y # insert_by cmp x ys else x # y # ys)"

definition array_sort :: "('a \<Rightarrow> 'a \<Rightarrow> jsnum) \<Rightarrow> 'a list \<Rightarrow> 'a list" where
  "array_sort cmp xs = foldr (insert_by cmp) xs []"

section \<open>Ranking\<close>

text \<open>
  \<open>String.prototype.localeCompare\<close> depends on the host's collation, so it is a
  parameter \<open>lc\<close> of the ranking: \<open>lc a b\<close> is negative, zero or positive.
\<close>

definition nullish_or :: "'a option \<Rightarrow> 'a \<Rightarrow> 'a" where
  \<comment> \<open>\<open>v ?? d\<close>\<close>
  "nullish_or v d = (case v of None \<Rightarrow> d | Some x \<Rightarrow> x)"

definition task_comparator ::
  "(string \<Rightarrow> string \<Rightarrow> int) \<Rightarrow> derivedTask \<Rightarrow> derivedTask \<Rightarrow> jsnum" where
  "task_comparator lc a b =
     (let aROI = nullish_or (roi a) NInf; bROI = nullish_or (roi b) NInf
      in if strict_neq bROI aROI then jsub bROI aROI
         else if priorityWeight b \<noteq> priorityWeight a
              then Fin (of_int (priorityWeight b - priorityWeight a))
         else Fin (of_int (lc (title a) (title b))))"

definition sortTasks ::
  "(string \<Rightarrow> string \<Rightarrow> int) \<Rightarrow> derivedTask list \<Rightarrow> derivedTask list" where
  "sortTasks lc tasks = array_sort (task_comparator lc) tasks"

subsection \<open>Arrays as references\<close>

text \<open>
  Whether \<open>sortTasks\<close> touches its argument is a question about array identity.  A heap
  is the list of all arrays allocated so far and a reference is an index into it.
  \<open>[...tasks]\<close> allocates a copy; \<open>.sort\<close> overwrites the array it is called on.
\<close>

type_synonym 'a heap = "'a list list"

definition spread_copy :: "'a heap \<Rightarrow> nat \<Rightarrow> nat \<times> 'a heap" where
  "spread_copy h r = (length h, h @ [h ! r])"

definition sort_in_place :: "('a \<Rightarrow> 'a \<Rightarrow> jsnum) \<Rightarrow> 'a heap \<Rightarrow> nat \<Rightarrow> nat \<times> 'a heap" where
  "sort_in_place cmp h r = (r, h[r := array_sort cmp (h ! r)])"

definition sortTasks_heap ::
  "(string \<Rightarrow> string \<Rightarrow> int) \<Rightarrow> derivedTask heap \<Rightarrow> nat \<Rightarrow> nat \<times> derivedTask heap" where
  "sortTasks_heap lc h tasks =
     (let (copy, h1) = spread_copy h tasks
      in sort_in_place (task_comparator lc) h1 copy)"

subsection \<open>The ranking order in the words of its description\<close>

text \<open>
  The value of the \<open>roi\<close> field as the ranking reads it: an undefined ROI counts as minus
  infinity.
\<close>

definition ranking_roi :: "jsnum option \<Rightarrow> jsnum" where
  "ranking_roi r = (case r of None \<Rightarrow> NInf | Some v \<Rightarrow> v)"

text \<open>
  \<open>ranked_before lc a b\<close>: \<open>a\<close> may stand directly in front of \<open>b\<close>.  ROI descending with
  a missing ROI read as minus infinity, then priority weight descending, then title
  ascending in the collation \<open>lc\<close>.
\<close>

definition ranked_before ::
  "(string \<Rightarrow> string \<Rightarrow> int) \<Rightarrow> derivedTask \<Rightarrow> derivedTask \<Rightarrow> bool" where
  "ranked_before lc a b =
     (jlt (ranking_roi (roi b)) (ranking_roi (roi a))
      \<or> (ranking_roi (roi a) = ranking_roi (roi b)
          \<and> (priorityWeight b < priorityWeight a
              \<or> (priorityWeight a = priorityWeight b \<and> lc (title a) (title b) \<le> 0))))"

text \<open>
  What the ranking needs of a collation: swapping the arguments swaps the sign, and
  "not after" is transitive.
\<close>

definition consistent_collation :: "(string \<Rightarrow> string \<Rightarrow> int) \<Rightarrow> bool" where
  "consistent_collation lc =
     ((\<forall>a b. sgn (lc b a) = - sgn (lc a b))
      \<and> (\<forall>a b c. lc a b \<le> 0 \<and> lc b c \<le> 0 \<longrightarrow> lc a c \<le> 0))"

text \<open>The plainest instance, comparison by character codes.\<close>

definition code_unit_compare :: "string \<Rightarrow> string \<Rightarrow> int" where
  "code_unit_compare a b = (if a < b then - 1 else if a = b then 0 else 1)"

text \<open>
  Two records tie when the comparator cannot tell them apart: same ROI (a missing one
  read as minus infinity), same priority weight, titles equal in the collation.
\<close>

definition ties :: "(string \<Rightarrow> string \<Rightarrow> int) \<Rightarrow> derivedTask \<Rightarrow> derivedTask \<Rightarrow> bool" where
  "ties lc a b =
     (ranking_roi (roi a) = ranking_roi (roi b) \<and> priorityWeight a = priorityWeight b
      \<and> lc (title a) (title b) = 0)"

section \<open>Core metrics\<close>







datatype grade = Excellent | Good | NeedsImprovement

definition computePerformanceGrade :: "jsnum \<Rightarrow> grade" where
  "computePerformanceGrade avgROI =
     (if jlt (Fin 500) avgROI then Excellent
      else if jle (Fin 200) avgROI then Good
      else NeedsImprovement)"

section \<open>Weighted pipeline\<close>

text \<open>
  \<open>weights[t.status]\<close> reads a property of an object literal: one of its three own
  keys, or a member inherited from \<open>Object.prototype\<close> (a function or an object), or
  \<open>undefined\<close>.
\<close>

datatype property = Own jsnum | Inherited | Undefined

definition object_prototype_keys :: "string list" where
  "object_prototype_keys =
     [''constructor'', ''__proto__'', ''hasOwnProperty'', ''isPrototypeOf'',
      ''propertyIsEnumerable'', ''toLocaleString'', ''toString'', ''valueOf'',
      ''__defineGetter__'', ''__defineSetter__'', ''__lookupGetter__'', ''__lookupSetter__'']"

definition weights :: "string \<Rightarrow> property" where
  "weights s =
     (if s = ''Todo'' then Own (Fin (1 / 10))
      else if s = ''In Progress'' then Own (Fin (1 / 2))
      else if s = ''Done'' then Own (Fin 1)
      else if s \<in> set object_prototype_keys then Inherited
      else Undefined)"

text \<open>
  A property as an operand of \<open>*\<close>: \<open>undefined\<close>, a function and a plain object all
  convert to NaN.
\<close>

fun to_number :: "property \<Rightarrow> jsnum" where
  "to_number (Own w) = w"
| "to_number Inherited = NaN"
| "to_number Undefined = NaN"

text \<open>\<open>p ?? 0\<close>: only \<open>undefined\<close> (and \<open>null\<close>) is replaced.\<close>

fun nullish_zero :: "property \<Rightarrow> jsnum" where
  "nullish_zero Undefined = Fin 0"
| "nullish_zero p = to_number p"

text \<open>
  The module comes in two copies.  The first multiplies by \<open>weights[t.status] ?? 0\<close>,
  the second by \<open>weights[t.status]\<close>.
\<close>

definition computeWeightedPipeline :: "task list \<Rightarrow> jsnum" where
  "computeWeightedPipeline tasks =
     foldl (\<lambda>sum t. jadd sum (jmul (revenue t) (nullish_zero (weights (status t))))) (Fin 0) tasks"

definition computeWeightedPipeline_B :: "task list \<Rightarrow> jsnum" where
  "computeWeightedPipeline_B tasks =
     foldl (\<lambda>sum t. jadd sum (jmul (revenue t) (to_number (weights (status t))))) (Fin 0) tasks"

subsection \<open>The metrics in the words of their description\<close>





definition mean :: "real list \<Rightarrow> real" where
  "mean xs = sum_list xs / real (length xs)"







section \<open>Funnel\<close>



section \<open>Numbers as text\<close>

text \<open>Template literals print an integer in decimal.\<close>

definition digit_char :: "nat \<Rightarrow> char" where
  "digit_char d = ''0123456789'' ! d"

function show_nat :: "nat \<Rightarrow> string" where
  "show_nat n = (if n < 10 then [digit_char n] else show_nat (n div 10) @ [digit_char (n mod 10)])"
  by pat_completeness auto
termination
  by (relation "measure id") auto

declare show_nat.simps [simp del]

definition show_int :: "int \<Rightarrow> string" where
  "show_int i = (if i < 0 then CHR ''-'' # show_nat (nat (- i)) else show_nat (nat i))"

section \<open>Forecast\<close>

text \<open>
  A point \<open>{week, revenue}\<close> is a pair.  \<open>a || 1\<close> replaces a falsy number (zero or
  NaN) by 1.  \<open>horizonWeeks\<close> is the length of the array that \<open>Array.from\<close> builds, a
  natural number.
\<close>

definition or_one :: "jsnum \<Rightarrow> jsnum" where
  "or_one a = (if a = Fin 0 \<or> a = NaN then Fin 1 else a)"

definition computeForecast :: "(string \<times> jsnum) list \<Rightarrow> nat \<Rightarrow> (string \<times> jsnum) list" where
  "computeForecast weekly horizonWeeks =
     (if length weekly < 2 then []
      else
        let y = map snd weekly;
            x = map (\<lambda>i. Fin (real i)) [0..<length weekly];
            n = Fin (real (length x));
            sumX = reduce_sum x;
            sumY = reduce_sum y;
            sumXY = foldl (\<lambda>s (v, i). jadd s (jmul v (y ! i))) (Fin 0) (zip x [0..<length x]);
            sumXX = foldl (\<lambda>s v. jadd s (jmul v v)) (Fin 0) x;
            slope = jdiv (jsub (jmul n sumXY) (jmul sumX sumY))
                         (or_one (jsub (jmul n sumXX) (jmul sumX sumX)));
            intercept = jdiv (jsub sumY (jmul slope sumX)) n
        in map (\<lambda>i. (CHR ''+'' # show_nat (i + 1),
                      math_max (Fin 0) (jadd (jmul slope (Fin (real (length x + i)))) intercept)))
               [0..<horizonWeeks])"

text \<open>The default horizon of four weeks.\<close>

definition computeForecast_default :: "(string \<times> jsnum) list \<Rightarrow> (string \<times> jsnum) list" where
  "computeForecast_default weekly = computeForecast weekly 4"

subsection \<open>Least squares in the words of its description\<close>











section \<open>Velocity by priority\<close>

text \<open>
  \<open>Math.round\<close> rounds half up: \<open>floor (x + 1/2)\<close>.  The two timestamps are time values
  in milliseconds.  A time value is at most \<open>8.64 * 10^15\<close> in magnitude, so a day count
  stays below \<open>2 * 10^8\<close> and no sum of day counts over an array comes near the overflow
  of a double: day counts are integers here and their mean is a real.
\<close>

definition daysBetween :: "int \<Rightarrow> int \<Rightarrow> int" where
  "daysBetween a b = max 0 \<lfloor>real_of_int (b - a) / (24 * 3600 * 1000) + 1 / 2\<rfloor>"

datatype error = TypeError

record stats =
  avgDays :: real
  medianDays :: int

record velocity =
  high :: stats
  medium :: stats
  low :: stats

text \<open>
  The three arrays of \<open>groups\<close>, in the order High, Medium, Low.  \<open>groups[t.priority]\<close>
  is an array only for these three keys; \<open>.push\<close> on anything else throws a TypeError,
  which ends the \<open>forEach\<close> and the call.
\<close>

fun collect_days ::
  "int list \<times> int list \<times> int list \<Rightarrow> task list \<Rightarrow> error + (int list \<times> int list \<times> int list)" where
  "collect_days g [] = Inr g"
| "collect_days (h, m, l) (t # ts) =
     (case completedAt t of
        None \<Rightarrow> collect_days (h, m, l) ts
      | Some c \<Rightarrow>
          (let d = daysBetween (createdAt t) c
           in if priority t = ''High'' then collect_days (h @ [d], m, l) ts
              else if priority t = ''Medium'' then collect_days (h, m @ [d], l) ts
              else if priority t = ''Low'' then collect_days (h, m, l @ [d]) ts
              else Inl TypeError))"

definition ascending :: "int \<Rightarrow> int \<Rightarrow> jsnum" where
  \<comment> \<open>\<open>(a, b) => a - b\<close>\<close>
  "ascending a b = Fin (of_int (a - b))"

text \<open>First copy: an empty bucket keeps the initial \<open>{avgDays: 0, medianDays: 0}\<close>.\<close>

definition bucket_stats :: "int list \<Rightarrow> stats" where
  "bucket_stats days =
     (let arr = array_sort ascending days
      in if length arr = 0 then \<lparr> avgDays = 0, medianDays = 0 \<rparr>
         else \<lparr> avgDays = real_of_int (foldl (+) 0 arr) / real (length arr),
                medianDays = arr ! (length arr div 2) \<rparr>)"

definition computeVelocityByPriority :: "task list \<Rightarrow> error + velocity" where
  "computeVelocityByPriority tasks =
     (case collect_days ([], [], []) tasks of
        Inl e \<Rightarrow> Inl e
      | Inr (h, m, l) \<Rightarrow>
          Inr \<lparr> high = bucket_stats h, medium = bucket_stats m, low = bucket_stats l \<rparr>)"

text \<open>Second copy: average and median are each guarded by the length.\<close>

definition bucket_stats_B :: "int list \<Rightarrow> stats" where
  "bucket_stats_B days =
     (let arr = array_sort ascending days;
          avg = (if length arr \<noteq> 0 then real_of_int (foldl (+) 0 arr) / real (length arr) else 0);
          median = (if length arr \<noteq> 0 then arr ! (length arr div 2) else 0)
      in \<lparr> avgDays = avg, medianDays = median \<rparr>)"

definition computeVelocityByPriority_B :: "task list \<Rightarrow> error + velocity" where
  "computeVelocityByPriority_B tasks =
     (case collect_days ([], [], []) tasks of
        Inl e \<Rightarrow> Inl e
      | Inr (h, m, l) \<Rightarrow>
          Inr \<lparr> high = bucket_stats_B h, medium = bucket_stats_B m, low = bucket_stats_B l \<rparr>)"

subsection \<open>The velocity in the words of its description\<close>

text \<open>
  The day counts of the completed tasks of one priority, in input order; and what is
  reported for a bucket: the mean, and the element at index \<open>floor (n / 2)\<close> of the values
  in ascending order, or 0 and 0 for an empty bucket.
\<close>

definition completed_days :: "string \<Rightarrow> task list \<Rightarrow> int list" where
  "completed_days p tasks =
     map (\<lambda>t. daysBetween (createdAt t) (the (completedAt t)))
         (filter (\<lambda>t. completedAt t \<noteq> None \<and> priority t = p) tasks)"

definition bucket_report :: "int list \<Rightarrow> stats" where
  "bucket_report ds =
     (if ds = [] then \<lparr> avgDays = 0, medianDays = 0 \<rparr>
      else \<lparr> avgDays = mean (map real_of_int ds), medianDays = sort ds ! (length ds div 2) \<rparr>)"

section \<open>Dates\<close>

text \<open>
  A \<open>Date\<close> is its time value (a valid one: an unparsable timestamp is outside this
  model).  Day number, weekday and year are ECMAScript's \<open>Day\<close>, \<open>WeekDay\<close> and
  \<open>YearFromTime\<close>: \<open>DayFromYear y\<close> is the day number of 1 January of year \<open>y\<close>, and the
  year of a day is the largest \<open>y\<close> with \<open>DayFromYear y\<close> not after it, found here by
  stepping down and then up from an estimate.
\<close>

definition msPerDay :: int where
  "msPerDay = 86400000"

definition Day :: "int \<Rightarrow> int" where
  "Day t = t div msPerDay"

definition getUTCDay :: "int \<Rightarrow> int" where
  "getUTCDay t = (Day t + 4) mod 7"

definition DayFromYear :: "int \<Rightarrow> int" where
  "DayFromYear y =
     365 * (y - 1970) + (y - 1969) div 4 - (y - 1901) div 100 + (y - 1601) div 400"

lemma div_step: "0 < k \<Longrightarrow> (a::int) div k \<le> (a + 1) div k \<and> (a + 1) div k \<le> a div k + 1"
proof
  assume k: "0 < k"
  show "a div k \<le> (a + 1) div k" using k by (simp add: zdiv_mono1)
  have "(a + 1) div k \<le> (a + k) div k" using k by (intro zdiv_mono1) auto
  also have "\<dots> = a div k + 1" using k by simp
  finally show "(a + 1) div k \<le> a div k + 1" .
qed

lemma DayFromYear_mono: "DayFromYear y < DayFromYear (y + 1)"
proof -
  have a: "(y - 1969) div 4 \<le> (y + 1 - 1969) div 4"
    using div_step [of 4 "y - 1969"] by (simp add: algebra_simps)
  have b: "(y + 1 - 1901) div 100 \<le> (y - 1901) div 100 + 1"
    using div_step [of 100 "y - 1901"] by (simp add: algebra_simps)
  have c: "(y - 1601) div 400 \<le> (y + 1 - 1601) div 400"
    using div_step [of 400 "y - 1601"] by (simp add: algebra_simps)
  have "365 * (y - 1970) + A - B + C < 365 * (y + 1 - 1970) + A' - B' + C'"
    if "A \<le> A'" "B' \<le> B + 1" "C \<le> C'" for A A' B B' C C' :: int
    using that by (simp add: algebra_simps)
  from this [OF a b c] show ?thesis unfolding DayFromYear_def .
qed

function year_down :: "int \<Rightarrow> int \<Rightarrow> int" where
  "year_down y d = (if d < DayFromYear y then year_down (y - 1) d else y)"
  by pat_completeness auto
termination
proof (relation "measure (\<lambda>(y, d). nat (DayFromYear y - d))")
  show "wf (measure (\<lambda>(y, d). nat (DayFromYear y - d)))" by simp
  fix y d :: int
  assume "d < DayFromYear y"
  moreover have "DayFromYear (y - 1) < DayFromYear y"
    using DayFromYear_mono [of "y - 1"] by simp
  ultimately show "((y - 1, d), (y, d)) \<in> measure (\<lambda>(y, d). nat (DayFromYear y - d))"
    by simp
qed

function year_up :: "int \<Rightarrow> int \<Rightarrow> int" where
  "year_up y d = (if DayFromYear (y + 1) \<le> d then year_up (y + 1) d else y)"
  by pat_completeness auto
termination
proof (relation "measure (\<lambda>(y, d). nat (d + 1 - DayFromYear (y + 1)))")
  show "wf (measure (\<lambda>(y, d). nat (d + 1 - DayFromYear (y + 1))))" by simp
  fix y d :: int
  assume "DayFromYear (y + 1) \<le> d"
  moreover have "DayFromYear (y + 1) < DayFromYear (y + 1 + 1)"
    by (rule DayFromYear_mono)
  ultimately show "((y + 1, d), (y, d)) \<in> measure (\<lambda>(y, d). nat (d + 1 - DayFromYear (y + 1)))"
    by simp
qed

declare year_down.simps [simp del] year_up.simps [simp del]

definition year_of_day :: "int \<Rightarrow> int" where
  "year_of_day d = year_up (year_down (1970 + d div 365) d) d"

definition getUTCFullYear :: "int \<Rightarrow> int" where
  "getUTCFullYear t = year_of_day (Day t)"

text \<open>
  \<open>getWeekNumber\<close>: \<open>t\<close> is midnight of the day of \<open>d\<close>, moved to the Thursday of its
  week (\<open>setUTCDate\<close> with a day of the month out of range moves into the neighbouring
  month); \<open>y\<close> is 1 January of the year of that Thursday.  (\<open>Date.UTC\<close> reads a year
  from 0 to 99 as 1900 to 1999; dates of those years are not covered.)
\<close>

definition getWeekNumber :: "int \<Rightarrow> int" where
  "getWeekNumber d =
     (let t0 = Day d * msPerDay;
          t = t0 + (4 - (if getUTCDay t0 = 0 then 7 else getUTCDay t0)) * msPerDay;
          y = DayFromYear (getUTCFullYear t) * msPerDay
      in \<lceil>(real_of_int (t - y) / 86400000 + 1) / 7\<rceil>)"

definition week_key :: "int \<Rightarrow> string" where
  \<comment> \<open>\<open>`${d.getUTCFullYear()}-W${getWeekNumber(d)}`\<close>\<close>
  "week_key d = show_int (getUTCFullYear d) @ ''-W'' @ show_int (getWeekNumber d)"

section \<open>Throughput by week\<close>

text \<open>
  A \<open>Map\<close> keeps its keys in insertion order; \<open>set\<close> on a key that is present replaces the
  value in place.  A bucket is \<open>(count, revenue)\<close> and an entry \<open>(week, count, revenue)\<close>;
  the final \<open>.map\<close> of the source, which spreads an entry into a row with the same three
  components, changes nothing here.
\<close>

fun map_set :: "'k \<Rightarrow> 'v \<Rightarrow> ('k \<times> 'v) list \<Rightarrow> ('k \<times> 'v) list" where
  "map_set k v [] = [(k, v)]"
| "map_set k v ((k', v') # m) = (if k' = k then (k, v) # m else (k', v') # map_set k v m)"

fun tally :: "(string \<times> nat \<times> jsnum) list \<Rightarrow> task list \<Rightarrow> (string \<times> nat \<times> jsnum) list" where
  "tally m [] = m"
| "tally m (t # ts) =
     (case completedAt t of
        None \<Rightarrow> tally m ts
      | Some c \<Rightarrow>
          (let key = week_key c;
               v = (case map_of m key of None \<Rightarrow> (0, Fin 0) | Some v \<Rightarrow> v)
           in tally (map_set key (fst v + 1, jadd (snd v) (revenue t)) m) ts))"

definition by_key :: "(string \<Rightarrow> string \<Rightarrow> int) \<Rightarrow> string \<times> 'v \<Rightarrow> string \<times> 'v \<Rightarrow> jsnum" where
  \<comment> \<open>\<open>(a, b) => a[0].localeCompare(b[0])\<close>\<close>
  "by_key lc a b = Fin (of_int (lc (fst a) (fst b)))"

definition computeThroughputByWeek ::
  "(string \<Rightarrow> string \<Rightarrow> int) \<Rightarrow> task list \<Rightarrow> (string \<times> nat \<times> jsnum) list" where
  "computeThroughputByWeek lc tasks = array_sort (by_key lc) (tally [] tasks)"


section \<open>Cohort revenue\<close>






subsection \<open>The sums of the buckets in the words of their description\<close>



section \<open>Example inputs\<close>

text \<open>The two tasks of the ranking scenario: ROI 100 and ROI 50.\<close>

definition task_A :: task where
  "task_A = \<lparr> task_id = ''a'', title = ''A'', revenue = Fin 1000, timeTaken = Fin 10,
      priority = ''High'', status = ''Done'', createdAt = 0, completedAt = None \<rparr>"

definition task_B :: task where
  "task_B = \<lparr> task_id = ''b'', title = ''B'', revenue = Fin 500, timeTaken = Fin 10,
      priority = ''Low'', status = ''Done'', createdAt = 0, completedAt = None \<rparr>"

text \<open>Two different tasks (different ids) that share title, revenue, time and priority.\<close>

definition call_1 :: task where
  "call_1 = \<lparr> task_id = ''1'', title = ''Call'', revenue = Fin 100, timeTaken = Fin 1,
      priority = ''High'', status = ''Todo'', createdAt = 0, completedAt = None \<rparr>"

definition call_2 :: task where
  "call_2 = \<lparr> task_id = ''2'', title = ''Call'', revenue = Fin 100, timeTaken = Fin 1,
      priority = ''High'', status = ''Todo'', createdAt = 0, completedAt = None \<rparr>"


text \<open>A task with a status outside the three expected ones.\<close>

definition blocked_task :: task where
  "blocked_task = \<lparr> task_id = ''x'', title = ''Blocked deal'', revenue = Fin 100,
      timeTaken = Fin 2, priority = ''High'', status = ''Blocked'', createdAt = 0,
      completedAt = None \<rparr>"

text \<open>A finished task of priority \<open>p\<close> that took \<open>ms\<close> milliseconds from creation.\<close>

definition finished :: "string \<Rightarrow> int \<Rightarrow> task" where
  "finished p ms = \<lparr> task_id = ''f'', title = ''Finished'', revenue = Fin 100, timeTaken = Fin 1,
      priority = p, status = ''Done'', createdAt = 0, completedAt = Some ms \<rparr>"

text \<open>Four High tasks finished after 1, 7, 3 and 5 days, and one open task.\<close>

definition sprint :: "task list" where
  "sprint = [finished ''High'' 86400000, finished ''High'' 604800000, task_A,
             finished ''High'' 259200000, finished ''High'' 432000000]"

text \<open>
  Three tasks on which the ROI decides against priority and title: ROI 100 with low
  priority, ROI 50 with high priority, and no ROI (zero time) with high priority.
\<close>

definition deal_low :: task where
  "deal_low = \<lparr> task_id = ''l'', title = ''Z'', revenue = Fin 1000, timeTaken = Fin 10,
      priority = ''Low'', status = ''Done'', createdAt = 0, completedAt = None \<rparr>"

definition deal_high :: task where
  "deal_high = \<lparr> task_id = ''h'', title = ''B'', revenue = Fin 500, timeTaken = Fin 10,
      priority = ''High'', status = ''Done'', createdAt = 0, completedAt = None \<rparr>"

definition deal_null :: task where
  "deal_null = \<lparr> task_id = ''n'', title = ''A'', revenue = Fin 900, timeTaken = Fin 0,
      priority = ''High'', status = ''Todo'', createdAt = 0, completedAt = None \<rparr>"




section \<open>Properties of the numbers\<close>

lemma threshold_pos: "0 < overflow_threshold"
  by (simp add: overflow_threshold_def)

lemma fin_in_range: "in_range r \<Longrightarrow> fin r = Fin r"
  by (auto simp: fin_def in_range_def)

lemma fin_not_NaN [simp]: "fin r \<noteq> NaN"
  by (simp add: fin_def)

lemma isFinite_fin: "isFinite (fin r) = in_range r"
  using threshold_pos by (auto simp: fin_def in_range_def)

lemma fin_eq_Fin: "fin r = Fin x \<longleftrightarrow> in_range r \<and> x = r"
  using threshold_pos by (auto simp: fin_def in_range_def)

lemma in_range_0 [simp]: "in_range 0"
  using threshold_pos by (simp add: in_range_def)

lemma in_range_minus [simp]: "in_range (- r) = in_range r"
  by (simp add: in_range_def)


text \<open>Every number up to \<open>10^18\<close> in magnitude is far inside the range.\<close>

lemma small_in_range: "\<bar>r\<bar> \<le> 1000000000000000000 \<Longrightarrow> in_range r"
proof -
  have "(1000000000000000000::real) < overflow_threshold"
    by (simp add: overflow_threshold_def)
  then show "\<bar>r\<bar> \<le> 1000000000000000000 \<Longrightarrow> in_range r"
    by (simp add: in_range_def)
qed

lemma fin_small: "\<bar>r\<bar> \<le> 1000000000000000000 \<Longrightarrow> fin r = Fin r"
  by (rule fin_in_range) (rule small_in_range)

text \<open>Overflow keeps the sign.\<close>

lemma jlt_0_fin [simp]: "jlt (Fin 0) (fin r) = (0 < r)"
  using threshold_pos by (auto simp: fin_def)

lemma jlt_fin_0 [simp]: "jlt (fin r) (Fin 0) = (r < 0)"
  using threshold_pos by (auto simp: fin_def)

lemma jle_Fin [simp]: "jle (Fin a) (Fin b) = (a \<le> b)"
  by (auto simp: jle_def)



text \<open>
  A finite result has finite operands and is exact: once an infinity or NaN has come
  up, a sum or product never returns to a finite number.
\<close>

lemma jadd_finite:
  "isFinite (jadd a b) \<Longrightarrow> \<exists>x y. a = Fin x \<and> b = Fin y \<and> in_range (x + y) \<and> jadd a b = Fin (x + y)"
  by (cases a; cases b) (auto simp: isFinite_fin fin_in_range)

lemma jmul_finite:
  "isFinite (jmul a b) \<Longrightarrow> \<exists>x y. a = Fin x \<and> b = Fin y \<and> in_range (x * y) \<and> jmul a b = Fin (x * y)"
  by (cases a; cases b) (auto simp: isFinite_fin fin_in_range signed_inf_def split: if_splits)

lemma jadd_Fin_in_range: "in_range (a + b) \<Longrightarrow> jadd (Fin a) (Fin b) = Fin (a + b)"
  by (simp add: fin_in_range)




section \<open>Properties of computeROI\<close>

lemma computeROI_null_iff:
  "computeROI r t = None \<longleftrightarrow> \<not> isFinite r \<or> \<not> isFinite t \<or> jle t (Fin 0)"
  by (simp add: computeROI_def)

lemma computeROI_Fin:
  "computeROI (Fin a) (Fin b) = (if b \<le> 0 then None else Some (fin (a / b)))"
  by (simp add: computeROI_def)

lemma computeROI_exact:
  "0 < b \<Longrightarrow> in_range (a / b) \<Longrightarrow> computeROI (Fin a) (Fin b) = Some (Fin (a / b))"
  by (simp add: computeROI_Fin fin_in_range)


text \<open>
  Claim C4 on revenue \<open>2^1023\<close> and timeTaken \<open>1/2\<close>: both are finite doubles and the time
  is positive, so the guard lets them pass; the quotient \<open>2^1024\<close> is beyond the largest
  double and \<open>computeROI\<close> returns Infinity, where the claim (and the comment above the
  function) says it never does.
\<close>

theorem computeROI_overflow:
  "computeROI (Fin (2 ^ 1023)) (Fin (1 / 2)) = Some PInf"
  by (simp add: computeROI_def fin_def overflow_threshold_def)

theorem computeROI_overflow_witness:
  "computeROI (Fin (2 ^ 1023)) (Fin (1 / 2)) \<noteq> None
   \<and> isFinite (Fin (2 ^ 1023)) \<and> isFinite (Fin (1 / 2)) \<and> \<not> jle (Fin (1 / 2)) (Fin 0)"
  using computeROI_overflow by simp

section \<open>Properties of the sort\<close>

lemma set_insert_by [simp]: "set (insert_by cmp x ys) = insert x (set ys)"
  by (induction ys) auto

lemma mset_insert_by [simp]: "mset (insert_by cmp x ys) = add_mset x (mset ys)"
  by (induction ys) auto

lemma mset_array_sort [simp]: "mset (array_sort cmp xs) = mset xs"
  by (induction xs) (auto simp: array_sort_def)

lemma set_array_sort [simp]: "set (array_sort cmp xs) = set xs"
  by (metis mset_array_sort set_mset_mset)

lemma length_array_sort [simp]: "length (array_sort cmp xs) = length xs"
  by (metis mset_array_sort size_mset)

text \<open>
  The insertion keeps a list sorted when "need not follow" is total and transitive on
  the elements involved.
\<close>

lemma sorted_wrt_insert_by:
  assumes total: "\<And>a b. a \<in> A \<Longrightarrow> b \<in> A \<Longrightarrow> sorts_after (cmp a b) \<Longrightarrow> \<not> sorts_after (cmp b a)"
    and trans: "\<And>a b c. a \<in> A \<Longrightarrow> b \<in> A \<Longrightarrow> c \<in> A \<Longrightarrow>
                  \<not> sorts_after (cmp a b) \<Longrightarrow> \<not> sorts_after (cmp b c) \<Longrightarrow> \<not> sorts_after (cmp a c)"
    and sub: "insert x (set ys) \<subseteq> A"
    and srt: "sorted_wrt (\<lambda>a b. \<not> sorts_after (cmp a b)) ys"
  shows "sorted_wrt (\<lambda>a b. \<not> sorts_after (cmp a b)) (insert_by cmp x ys)"
  using sub srt
proof (induction ys)
  case Nil
  then show ?case by simp
next
  case (Cons y ys)
  show ?case
  proof (cases "sorts_after (cmp x y)")
    case True
    then have yx: "\<not> sorts_after (cmp y x)"
      using total [of x y] Cons.prems(1) by auto
    have "sorted_wrt (\<lambda>a b. \<not> sorts_after (cmp a b)) (insert_by cmp x ys)"
      using Cons by auto
    with True yx Cons.prems show ?thesis by auto
  next
    case False
    have "\<not> sorts_after (cmp x z)" if "z \<in> set ys" for z
      using trans [of x y z] False that Cons.prems by auto
    with False Cons.prems show ?thesis by auto
  qed
qed

lemma sorted_wrt_array_sort:
  assumes total: "\<And>a b. a \<in> A \<Longrightarrow> b \<in> A \<Longrightarrow> sorts_after (cmp a b) \<Longrightarrow> \<not> sorts_after (cmp b a)"
    and trans: "\<And>a b c. a \<in> A \<Longrightarrow> b \<in> A \<Longrightarrow> c \<in> A \<Longrightarrow>
                  \<not> sorts_after (cmp a b) \<Longrightarrow> \<not> sorts_after (cmp b c) \<Longrightarrow> \<not> sorts_after (cmp a c)"
    and sub: "set xs \<subseteq> A"
  shows "sorted_wrt (\<lambda>a b. \<not> sorts_after (cmp a b)) (array_sort cmp xs)"
  using sub
proof (induction xs)
  case Nil
  then show ?case by (simp add: array_sort_def)
next
  case (Cons x xs)
  then have "sorted_wrt (\<lambda>a b. \<not> sorts_after (cmp a b)) (array_sort cmp xs)" by simp
  moreover have "insert x (set (array_sort cmp xs)) \<subseteq> A" using Cons.prems by simp
  ultimately have "sorted_wrt (\<lambda>a b. \<not> sorts_after (cmp a b)) (insert_by cmp x (array_sort cmp xs))"
    using sorted_wrt_insert_by [of A cmp x "array_sort cmp xs"] total trans by blast
  then show ?case by (simp add: array_sort_def)
qed

text \<open>Two lists sorted by an antisymmetric relation with the same elements are equal.\<close>

lemma sorted_wrt_mset_unique:
  assumes anti: "\<And>a b. a \<in> set xs \<Longrightarrow> b \<in> set xs \<Longrightarrow> R a b \<Longrightarrow> R b a \<Longrightarrow> a = b"
    and "sorted_wrt R xs" "sorted_wrt R ys" "mset xs = mset ys"
  shows "xs = ys"
  using assms
proof (induction xs arbitrary: ys)
  case Nil
  then show ?case by simp
next
  case (Cons x xs)
  from Cons.prems(4) obtain y ys' where ys: "ys = y # ys'"
    by (cases ys) auto
  have sets: "set (x # xs) = set ys"
    using Cons.prems(4) by (metis set_mset_mset)
  have "x = y"
  proof (rule ccontr)
    assume ne: "x \<noteq> y"
    with sets ys have mem: "y \<in> set xs" "x \<in> set ys'" by auto
    with Cons.prems(2,3) ys have "R x y" "R y x" by auto
    moreover have "x \<in> set (x # xs)" "y \<in> set (x # xs)" using mem by auto
    ultimately have "x = y" by (rule Cons.prems(1) [rotated 2])
    with ne show False by simp
  qed
  moreover have "xs = ys'"
  proof (rule Cons.IH)
    show "sorted_wrt R xs" "sorted_wrt R ys'"
      using Cons.prems(2,3) ys by auto
    show "mset xs = mset ys'"
      using Cons.prems(4) ys \<open>x = y\<close> by simp
    show "\<And>a b. a \<in> set xs \<Longrightarrow> b \<in> set xs \<Longrightarrow> R a b \<Longrightarrow> R b a \<Longrightarrow> a = b"
      using Cons.prems(1) by auto
  qed
  ultimately show ?case using ys by simp
qed

section \<open>Properties of the ranking\<close>

lemma jlt_irrefl [simp]: "\<not> jlt a a"
  by (cases a) auto

lemma jlt_trans: "jlt a b \<Longrightarrow> jlt b c \<Longrightarrow> jlt a c"
  by (cases a; cases b; cases c) auto

lemma jlt_asym: "jlt a b \<Longrightarrow> \<not> jlt b a"
  by (cases a; cases b) auto

lemma jlt_linear: "a \<noteq> NaN \<Longrightarrow> b \<noteq> NaN \<Longrightarrow> jlt a b \<or> a = b \<or> jlt b a"
  by (cases a; cases b) auto

lemma sorts_after_jsub:
  "a \<noteq> NaN \<Longrightarrow> b \<noteq> NaN \<Longrightarrow> a \<noteq> b \<Longrightarrow> sorts_after (jsub b a) = jlt a b"
  by (cases a; cases b) (auto simp: sorts_after_def jsub_def)

lemma nullish_ranking: "nullish_or r NInf = ranking_roi r"
  by (simp add: nullish_or_def ranking_roi_def)

lemma sorts_after_Fin [simp]: "sorts_after (Fin r) = (0 < r)"
  by (simp add: sorts_after_def)

text \<open>When the comparator sends \<open>a\<close> behind \<open>b\<close>.\<close>

lemma sorts_after_task_comparator:
  assumes "ranking_roi (roi a) \<noteq> NaN" "ranking_roi (roi b) \<noteq> NaN"
  shows "sorts_after (task_comparator lc a b) \<longleftrightarrow>
           jlt (ranking_roi (roi a)) (ranking_roi (roi b))
           \<or> (ranking_roi (roi a) = ranking_roi (roi b)
               \<and> (priorityWeight a < priorityWeight b
                   \<or> (priorityWeight a = priorityWeight b \<and> 0 < lc (title a) (title b))))"
proof (cases "ranking_roi (roi a) = ranking_roi (roi b)")
  case True
  then show ?thesis
    using assms by (auto simp: task_comparator_def nullish_ranking strict_neq_def Let_def)
next
  case False
  then have "task_comparator lc a b = jsub (ranking_roi (roi b)) (ranking_roi (roi a))"
    by (auto simp: task_comparator_def nullish_ranking strict_neq_def Let_def)
  with False assms show ?thesis
    by (simp add: sorts_after_jsub)
qed

lemma sorts_after_iff_not_ranked_before:
  assumes "ranking_roi (roi a) \<noteq> NaN" "ranking_roi (roi b) \<noteq> NaN"
  shows "sorts_after (task_comparator lc a b) \<longleftrightarrow> \<not> ranked_before lc a b"
  unfolding sorts_after_task_comparator [OF assms] ranked_before_def
  using jlt_linear [OF assms] jlt_asym [of "ranking_roi (roi a)" "ranking_roi (roi b)"]
  by (auto simp: not_less)

lemma roi_key_not_NaN: "roi t \<noteq> Some NaN \<Longrightarrow> ranking_roi (roi t) \<noteq> NaN"
  by (auto simp: ranking_roi_def split: option.splits)

lemma collation_swap:
  "consistent_collation lc \<Longrightarrow> 0 < lc a b \<Longrightarrow> lc b a < 0"
proof -
  assume c: "consistent_collation lc" and p: "0 < lc a b"
  from c have "sgn (lc b a) = - sgn (lc a b)" unfolding consistent_collation_def by blast
  with p show "lc b a < 0" by (simp add: sgn_if split: if_splits)
qed

lemma collation_both_zero:
  "consistent_collation lc \<Longrightarrow> lc a b \<le> 0 \<Longrightarrow> lc b a \<le> 0 \<Longrightarrow> lc a b = 0"
proof -
  assume c: "consistent_collation lc" and p: "lc a b \<le> 0" "lc b a \<le> 0"
  from c have "sgn (lc b a) = - sgn (lc a b)" unfolding consistent_collation_def by blast
  with p show "lc a b = 0" by (simp add: sgn_if split: if_splits)
qed

lemma collation_trans:
  "consistent_collation lc \<Longrightarrow> lc a b \<le> 0 \<Longrightarrow> lc b c \<le> 0 \<Longrightarrow> lc a c \<le> 0"
  unfolding consistent_collation_def by blast

lemma ranked_before_total:
  assumes "consistent_collation lc" "ranking_roi (roi a) \<noteq> NaN" "ranking_roi (roi b) \<noteq> NaN"
  shows "ranked_before lc a b \<or> ranked_before lc b a"
  using jlt_linear [OF assms(2,3)] collation_swap [OF assms(1), of "title a" "title b"]
  unfolding ranked_before_def by force

lemma ranked_before_trans:
  assumes c: "consistent_collation lc"
    and ab: "ranked_before lc a b" and bc: "ranked_before lc b c"
  shows "ranked_before lc a c"
proof -
  let ?k = "\<lambda>t. ranking_roi (roi t)"
  consider "jlt (?k b) (?k a)" | "?k a = ?k b" "jlt (?k c) (?k b)"
    | "?k a = ?k b" "?k b = ?k c"
    using ab bc unfolding ranked_before_def by blast
  then show ?thesis
  proof cases
    case 1
    from bc have "jlt (?k c) (?k b) \<or> ?k b = ?k c" unfolding ranked_before_def by blast
    with 1 have "jlt (?k c) (?k a)" using jlt_trans by auto
    then show ?thesis by (simp add: ranked_before_def)
  next
    case 2
    then show ?thesis by (simp add: ranked_before_def)
  next
    case 3
    then have nlt: "\<not> jlt (?k b) (?k a)" "\<not> jlt (?k c) (?k b)" by simp_all
    from ab nlt have pab: "priorityWeight b < priorityWeight a
        \<or> (priorityWeight a = priorityWeight b \<and> lc (title a) (title b) \<le> 0)"
      unfolding ranked_before_def by blast
    from bc nlt have pbc: "priorityWeight c < priorityWeight b
        \<or> (priorityWeight b = priorityWeight c \<and> lc (title b) (title c) \<le> 0)"
      unfolding ranked_before_def by blast
    from pab pbc have "priorityWeight c < priorityWeight a
        \<or> (priorityWeight a = priorityWeight c \<and> lc (title a) (title c) \<le> 0)"
      using collation_trans [OF c, of "title a" "title b" "title c"] by auto
    with 3 show ?thesis by (simp add: ranked_before_def)
  qed
qed

lemma ranked_before_antisym:
  assumes c: "consistent_collation lc"
    and ab: "ranked_before lc a b" and ba: "ranked_before lc b a"
  shows "ties lc a b"
proof -
  let ?k = "\<lambda>t. ranking_roi (roi t)"
  have k: "?k a = ?k b"
    using ab ba jlt_asym [of "?k a" "?k b"] unfolding ranked_before_def by auto
  have pw: "priorityWeight a = priorityWeight b"
    using k ab ba unfolding ranked_before_def by auto
  have "lc (title a) (title b) \<le> 0" "lc (title b) (title a) \<le> 0"
    using k pw ab ba unfolding ranked_before_def by auto
  then have "lc (title a) (title b) = 0" by (rule collation_both_zero [OF c])
  with k pw show ?thesis by (simp add: ties_def)
qed

lemma sortTasks_sorted:
  assumes c: "consistent_collation lc" and n: "\<forall>t\<in>set tasks. roi t \<noteq> Some NaN"
  shows "sorted_wrt (ranked_before lc) (sortTasks lc tasks)"
proof -
  let ?A = "{t. ranking_roi (roi t) \<noteq> NaN}"
  let ?cmp = "task_comparator lc"
  have sub: "set tasks \<subseteq> ?A" using n roi_key_not_NaN by auto
  have "sorted_wrt (\<lambda>a b. \<not> sorts_after (?cmp a b)) (array_sort ?cmp tasks)"
  proof (rule sorted_wrt_array_sort [where A = ?A])
    fix a b assume "a \<in> ?A" "b \<in> ?A" "sorts_after (?cmp a b)"
    then show "\<not> sorts_after (?cmp b a)"
      using ranked_before_total [OF c, of a b]
      by (simp add: sorts_after_iff_not_ranked_before)
  next
    fix a b d assume "a \<in> ?A" "b \<in> ?A" "d \<in> ?A"
      "\<not> sorts_after (?cmp a b)" "\<not> sorts_after (?cmp b d)"
    then show "\<not> sorts_after (?cmp a d)"
      using ranked_before_trans [OF c, of a b d]
      by (simp add: sorts_after_iff_not_ranked_before)
  qed (rule sub)
  then have "sorted_wrt (ranked_before lc) (array_sort ?cmp tasks)"
  proof (rule sorted_wrt_mono_rel [rotated])
    fix a b assume "a \<in> set (array_sort ?cmp tasks)" "b \<in> set (array_sort ?cmp tasks)"
      and na: "\<not> sorts_after (?cmp a b)"
    then have "ranking_roi (roi a) \<noteq> NaN" "ranking_roi (roi b) \<noteq> NaN"
      using sub by auto
    with na show "ranked_before lc a b"
      by (simp add: sorts_after_iff_not_ranked_before)
  qed
  then show ?thesis by (simp add: sortTasks_def)
qed

lemma consistent_code_unit_compare: "consistent_collation code_unit_compare"
  unfolding consistent_collation_def code_unit_compare_def
  by (auto simp: sgn_if)

subsection \<open>Evaluating the ranking on the examples\<close>

lemma derived_A:
  "withDerived task_A = \<lparr> task_id = ''a'', title = ''A'', revenue = Fin 1000,
      timeTaken = Fin 10, priority = ''High'', status = ''Done'', createdAt = 0,
      completedAt = None, roi = Some (Fin 100), priorityWeight = 3 \<rparr>"
  by (simp add: withDerived_def task_A_def computeROI_def computePriorityWeight_def fin_small)

lemma derived_B:
  "withDerived task_B = \<lparr> task_id = ''b'', title = ''B'', revenue = Fin 500,
      timeTaken = Fin 10, priority = ''Low'', status = ''Done'', createdAt = 0,
      completedAt = None, roi = Some (Fin 50), priorityWeight = 1 \<rparr>"
  by (simp add: withDerived_def task_B_def computeROI_def computePriorityWeight_def fin_small)

lemma derived_call_1:
  "withDerived call_1 = \<lparr> task_id = ''1'', title = ''Call'', revenue = Fin 100,
      timeTaken = Fin 1, priority = ''High'', status = ''Todo'', createdAt = 0,
      completedAt = None, roi = Some (Fin 100), priorityWeight = 3 \<rparr>"
  by (simp add: withDerived_def call_1_def computeROI_def computePriorityWeight_def fin_small)

lemma derived_call_2:
  "withDerived call_2 = \<lparr> task_id = ''2'', title = ''Call'', revenue = Fin 100,
      timeTaken = Fin 1, priority = ''High'', status = ''Todo'', createdAt = 0,
      completedAt = None, roi = Some (Fin 100), priorityWeight = 3 \<rparr>"
  by (simp add: withDerived_def call_2_def computeROI_def computePriorityWeight_def fin_small)

lemma sort_B_A:
  "sortTasks lc [withDerived task_B, withDerived task_A] = [withDerived task_A, withDerived task_B]"
  by (simp add: derived_A derived_B sortTasks_def array_sort_def task_comparator_def
      nullish_or_def strict_neq_def jsub_def fin_small)

lemma sort_A_B:
  "sortTasks lc [withDerived task_A, withDerived task_B] = [withDerived task_A, withDerived task_B]"
  by (simp add: derived_A derived_B sortTasks_def array_sort_def task_comparator_def
      nullish_or_def strict_neq_def jsub_def fin_small)

lemma sort_calls_12:
  "sortTasks code_unit_compare [withDerived call_1, withDerived call_2]
     = [withDerived call_1, withDerived call_2]"
  by (simp add: derived_call_1 derived_call_2 sortTasks_def array_sort_def task_comparator_def
      nullish_or_def strict_neq_def code_unit_compare_def)

lemma sort_calls_21:
  "sortTasks code_unit_compare [withDerived call_2, withDerived call_1]
     = [withDerived call_2, withDerived call_1]"
  by (simp add: derived_call_1 derived_call_2 sortTasks_def array_sort_def task_comparator_def
      nullish_or_def strict_neq_def code_unit_compare_def)

lemma calls_differ: "withDerived call_1 \<noteq> withDerived call_2"
  by (simp add: derived_call_1 derived_call_2)

lemma A_B_no_tie:
  "\<not> ties lc (withDerived task_A) (withDerived task_B)"
  "\<not> ties lc (withDerived task_B) (withDerived task_A)"
  by (simp_all add: derived_A derived_B ties_def ranking_roi_def)

lemma A_B_roi:
  "roi (withDerived task_A) \<noteq> Some NaN" "roi (withDerived task_B) \<noteq> Some NaN"
  by (simp_all add: derived_A derived_B)

lemma derived_deals:
  "withDerived deal_low = \<lparr> task_id = ''l'', title = ''Z'', revenue = Fin 1000,
      timeTaken = Fin 10, priority = ''Low'', status = ''Done'', createdAt = 0,
      completedAt = None, roi = Some (Fin 100), priorityWeight = 1 \<rparr>"
  "withDerived deal_high = \<lparr> task_id = ''h'', title = ''B'', revenue = Fin 500,
      timeTaken = Fin 10, priority = ''High'', status = ''Done'', createdAt = 0,
      completedAt = None, roi = Some (Fin 50), priorityWeight = 3 \<rparr>"
  "withDerived deal_null = \<lparr> task_id = ''n'', title = ''A'', revenue = Fin 900,
      timeTaken = Fin 0, priority = ''High'', status = ''Todo'', createdAt = 0,
      completedAt = None, roi = None, priorityWeight = 3 \<rparr>"
  by (simp_all add: withDerived_def deal_low_def deal_high_def deal_null_def computeROI_def
      computePriorityWeight_def fin_small)

lemma sort_deals:
  "sortTasks lc [withDerived deal_null, withDerived deal_high, withDerived deal_low]
     = [withDerived deal_low, withDerived deal_high, withDerived deal_null]"
  by (simp add: derived_deals sortTasks_def array_sort_def task_comparator_def
      nullish_or_def strict_neq_def jsub_def fin_small sorts_after_def)

subsection \<open>The claims about the ranking\<close>

text \<open>
  Claim C8.  In the output of \<open>sortTasks\<close> every element is ranked before its right
  neighbour (and before every later element): ROI descending with a missing ROI read as
  minus infinity, then priority weight descending, then title ascending in the
  collation.  On the fields of two neighbours: of two finite ROIs the left one is the
  larger or they are equal; after a record without ROI comes no record with a finite
  one; with equal \<open>roi\<close> the left priority weight is the larger or they are equal, and
  with that equal too the left title is not after the right one.  The records carry a
  real or missing ROI, as \<open>withDerived\<close> produces them (no NaN), and the collation is a
  consistent order.
\<close>

theorem sortTasks_adjacent_ranked:
  assumes "consistent_collation lc"
    and "\<forall>t\<in>set tasks. roi t \<noteq> Some NaN"
  shows "sorted_wrt (ranked_before lc) (sortTasks lc tasks)
         \<and> (\<forall>i. Suc i < length tasks \<longrightarrow>
               ranked_before lc (sortTasks lc tasks ! i) (sortTasks lc tasks ! Suc i))
         \<and> (\<forall>i x y. Suc i < length tasks
                 \<and> roi (sortTasks lc tasks ! i) = Some (Fin x)
                 \<and> roi (sortTasks lc tasks ! Suc i) = Some (Fin y) \<longrightarrow> y \<le> x)
         \<and> (\<forall>i y. Suc i < length tasks \<and> roi (sortTasks lc tasks ! i) = None
                 \<longrightarrow> roi (sortTasks lc tasks ! Suc i) \<noteq> Some (Fin y))
         \<and> (\<forall>i. Suc i < length tasks
                 \<and> roi (sortTasks lc tasks ! i) = roi (sortTasks lc tasks ! Suc i)
                 \<longrightarrow> priorityWeight (sortTasks lc tasks ! Suc i)
                       \<le> priorityWeight (sortTasks lc tasks ! i)
                     \<and> (priorityWeight (sortTasks lc tasks ! i)
                          = priorityWeight (sortTasks lc tasks ! Suc i)
                        \<longrightarrow> lc (title (sortTasks lc tasks ! i))
                               (title (sortTasks lc tasks ! Suc i)) \<le> 0))"
proof -
  let ?s = "sortTasks lc tasks"
  have s: "sorted_wrt (ranked_before lc) ?s"
    using assms by (rule sortTasks_sorted)
  have len: "length ?s = length tasks"
    by (simp add: sortTasks_def)
  have adj: "ranked_before lc (?s ! i) (?s ! Suc i)" if "Suc i < length tasks" for i
    using s that len by (auto intro: sorted_wrt_nth_less)
  have roi_desc: "y \<le> x"
    if "Suc i < length tasks" "roi (?s ! i) = Some (Fin x)" "roi (?s ! Suc i) = Some (Fin y)"
    for i x y
    using adj [OF that(1)] that(2,3) by (auto simp: ranked_before_def ranking_roi_def)
  have null_last: "roi (?s ! Suc i) \<noteq> Some (Fin y)"
    if "Suc i < length tasks" "roi (?s ! i) = None" for i y
    using adj [OF that(1)] that(2) by (auto simp: ranked_before_def ranking_roi_def)
  have keys: "priorityWeight (?s ! Suc i) \<le> priorityWeight (?s ! i)
      \<and> (priorityWeight (?s ! i) = priorityWeight (?s ! Suc i)
          \<longrightarrow> lc (title (?s ! i)) (title (?s ! Suc i)) \<le> 0)"
    if "Suc i < length tasks" "roi (?s ! i) = roi (?s ! Suc i)" for i
    using adj [OF that(1)] that(2) by (auto simp: ranked_before_def)
  show ?thesis
    using s adj roi_desc null_last keys by blast
qed

theorem sortTasks_adjacent_ranked_witness:
  "sortTasks code_unit_compare [withDerived deal_null, withDerived deal_high, withDerived deal_low]
     = [withDerived deal_low, withDerived deal_high, withDerived deal_null]
   \<and> ranked_before code_unit_compare (withDerived deal_low) (withDerived deal_high)
   \<and> ranked_before code_unit_compare (withDerived deal_high) (withDerived deal_null)
   \<and> roi (withDerived deal_low) = Some (Fin 100)
   \<and> roi (withDerived deal_high) = Some (Fin 50)
   \<and> roi (withDerived deal_null) = None
   \<and> priorityWeight (withDerived deal_low) < priorityWeight (withDerived deal_high)"
proof -
  let ?in = "[withDerived deal_null, withDerived deal_high, withDerived deal_low]"
  have n: "\<forall>t\<in>set ?in. roi t \<noteq> Some NaN"
    by (simp add: derived_deals)
  note r = sortTasks_adjacent_ranked [OF consistent_code_unit_compare n]
  have "ranked_before code_unit_compare
          (sortTasks code_unit_compare ?in ! 0) (sortTasks code_unit_compare ?in ! Suc 0)"
    "ranked_before code_unit_compare
          (sortTasks code_unit_compare ?in ! 1) (sortTasks code_unit_compare ?in ! Suc 1)"
    using r by simp_all
  then have "ranked_before code_unit_compare (withDerived deal_low) (withDerived deal_high)"
    "ranked_before code_unit_compare (withDerived deal_high) (withDerived deal_null)"
    by (simp_all add: sort_deals)
  then show ?thesis
    by (simp add: sort_deals) (simp add: derived_deals)
qed

text \<open>
  Claim C1, as stated, fails: two tasks that differ only in their id tie in the
  comparator, the stable sort keeps them in input order, and the two orders of the same
  pair come out differently.
\<close>

theorem sortTasks_permutation_counterexample:
  "mset [withDerived call_1, withDerived call_2] = mset [withDerived call_2, withDerived call_1]
   \<and> sortTasks code_unit_compare [withDerived call_1, withDerived call_2]
       \<noteq> sortTasks code_unit_compare [withDerived call_2, withDerived call_1]"
  by (simp add: sort_calls_12 sort_calls_21 calls_differ)

text \<open>
  Claim C1, amended.  If no two different records of the input tie in the comparator
  (same ROI, same priority weight and titles equal in the collation), then every
  permutation of the input is sorted to the same sequence.  (That two calls on the same
  sequence agree holds of any function.)
\<close>

theorem sortTasks_permutation_invariant:
  assumes c: "consistent_collation lc"
    and n: "\<forall>t\<in>set xs. roi t \<noteq> Some NaN"
    and distinct: "\<forall>a\<in>set xs. \<forall>b\<in>set xs. ties lc a b \<longrightarrow> a = b"
    and perm: "mset xs = mset ys"
  shows "sortTasks lc xs = sortTasks lc ys"
proof (rule sorted_wrt_mset_unique [where R = "ranked_before lc"])
  have sets: "set ys = set xs" using perm by (metis set_mset_mset)
  show "sorted_wrt (ranked_before lc) (sortTasks lc xs)"
    using c n by (rule sortTasks_sorted)
  show "sorted_wrt (ranked_before lc) (sortTasks lc ys)"
    using c n sets by (intro sortTasks_sorted) auto
  show "mset (sortTasks lc xs) = mset (sortTasks lc ys)"
    using perm by (simp add: sortTasks_def)
  fix a b
  assume "a \<in> set (sortTasks lc xs)" "b \<in> set (sortTasks lc xs)"
    and "ranked_before lc a b" "ranked_before lc b a"
  then have "a \<in> set xs" "b \<in> set xs" "ties lc a b"
    using ranked_before_antisym [OF c] by (simp_all add: sortTasks_def)
  with distinct show "a = b" by blast
qed

theorem sortTasks_permutation_invariant_witness:
  "mset [withDerived task_B, withDerived task_A] = mset [withDerived task_A, withDerived task_B]
   \<and> sortTasks code_unit_compare [withDerived task_B, withDerived task_A]
       = sortTasks code_unit_compare [withDerived task_A, withDerived task_B]
   \<and> sortTasks code_unit_compare [withDerived task_A, withDerived task_B]
       = [withDerived task_A, withDerived task_B]"
proof -
  let ?xs = "[withDerived task_B, withDerived task_A]"
  let ?ys = "[withDerived task_A, withDerived task_B]"
  have n: "\<forall>t\<in>set ?xs. roi t \<noteq> Some NaN"
    using A_B_roi by simp
  have d: "\<forall>a\<in>set ?xs. \<forall>b\<in>set ?xs. ties code_unit_compare a b \<longrightarrow> a = b"
    using A_B_no_tie by simp
  have p: "mset ?xs = mset ?ys" by simp
  from sortTasks_permutation_invariant [OF consistent_code_unit_compare n d p] p
  show ?thesis by (simp add: sort_A_B)
qed

text \<open>
  Claim C10.  \<open>sortTasks\<close> allocates the array it returns: the reference differs from
  the argument's, every array that existed before the call (the argument among them)
  holds what it held, and the new array is a permutation of the argument: the same
  records with the same multiplicities.
\<close>

theorem sortTasks_new_array_permutation:
  assumes "tasks < length h"
    and "sortTasks_heap lc h tasks = (res, h')"
  shows "res \<noteq> tasks \<and> res < length h' \<and> length h \<le> res
         \<and> take (length h) h' = h
         \<and> h' ! tasks = h ! tasks
         \<and> h' ! res = sortTasks lc (h ! tasks)
         \<and> mset (h' ! res) = mset (h ! tasks)"
  using assms
  by (auto simp: sortTasks_heap_def spread_copy_def sort_in_place_def sortTasks_def
      nth_append)

theorem sortTasks_new_array_permutation_witness:
  "sortTasks_heap code_unit_compare [[withDerived task_B, withDerived task_A]] 0
     = (1, [[withDerived task_B, withDerived task_A], [withDerived task_A, withDerived task_B]])
   \<and> (1::nat) \<noteq> 0
   \<and> mset [withDerived task_A, withDerived task_B] = mset [withDerived task_B, withDerived task_A]"
proof -
  let ?xs = "[withDerived task_B, withDerived task_A]"
  let ?ys = "[withDerived task_A, withDerived task_B]"
  have r: "sortTasks_heap code_unit_compare [?xs] 0 = (1, [?xs, ?ys])"
    using sort_B_A [of code_unit_compare]
    by (simp add: sortTasks_heap_def spread_copy_def sort_in_place_def sortTasks_def)
  have "0 < length [?xs]" by simp
  from sortTasks_new_array_permutation [OF this r]
  have "(1::nat) \<noteq> 0" "mset ([?xs, ?ys] ! 1) = mset ([?xs] ! 0)"
    by (simp_all add: sortTasks_def)
  with r show ?thesis by simp
qed

section \<open>Properties of the metrics\<close>







subsection \<open>Average ROI\<close>












subsection \<open>Totals, efficiency and the weighted pipeline\<close>







lemma known_not_inherited:
  "s \<in> {''Todo'', ''In Progress'', ''Done''} \<Longrightarrow> s \<notin> set object_prototype_keys"
  by (auto simp: object_prototype_keys_def)




text \<open>
  Claim C6 on a task with the status \<open>Blocked\<close> and revenue 100.  The first copy of
  \<open>computeWeightedPipeline\<close> gives it the weight 0; the second copy, which reads
  \<open>weights[t.status]\<close> without a fallback, returns NaN.  In the first copy a status that
  names an inherited member (\<open>constructor\<close>) is not replaced by 0 either.
\<close>

theorem computeWeightedPipeline_unrecognized_status:
  "computeWeightedPipeline_B [blocked_task] = NaN
   \<and> computeWeightedPipeline [blocked_task] = Fin 0
   \<and> computeWeightedPipeline [blocked_task\<lparr>status := ''constructor''\<rparr>] = NaN"
  by (simp add: computeWeightedPipeline_B_def computeWeightedPipeline_def blocked_task_def
      weights_def object_prototype_keys_def fin_small)

section \<open>Properties of the forecast\<close>













lemma math_max_Fin [simp]: "math_max (Fin a) (Fin b) = Fin (max a b)"
  by (simp add: math_max_def max_def)
























section \<open>Properties of the velocity\<close>

lemma insert_by_ascending: "insert_by ascending x ys = insort x ys"
  by (induction ys) (auto simp: ascending_def sorts_after_def)

lemma array_sort_ascending: "array_sort ascending xs = sort xs"
  by (induction xs) (simp_all add: array_sort_def insert_by_ascending)

lemma foldl_plus_sum: "foldl (+) a (xs :: int list) = a + sum_list xs"
  by (induction xs arbitrary: a) auto

lemma sum_list_sort: "sum_list (sort (xs :: int list)) = sum_list xs"
  by (metis mset_sort sum_mset_sum_list)

lemma real_sum_list: "real_of_int (sum_list xs) = sum_list (map real_of_int xs)"
  by (induction xs) auto

lemma sort_Nil_iff [simp]: "sort (xs :: int list) = [] \<longleftrightarrow> xs = []"
  by (metis length_sort length_0_conv)

lemma bucket_stats_report: "bucket_stats ds = bucket_report ds"
  by (simp add: bucket_stats_def bucket_report_def Let_def array_sort_ascending
      foldl_plus_sum sum_list_sort mean_def real_sum_list)

lemma bucket_stats_B_report: "bucket_stats_B ds = bucket_report ds"
  by (simp add: bucket_stats_B_def bucket_report_def Let_def array_sort_ascending
      foldl_plus_sum sum_list_sort mean_def real_sum_list)


lemma collect_days_eq:
  assumes "\<forall>t\<in>set tasks. completedAt t \<noteq> None \<longrightarrow> priority t \<in> {''High'', ''Medium'', ''Low''}"
  shows "collect_days (h, m, l) tasks
         = Inr (h @ completed_days ''High'' tasks, m @ completed_days ''Medium'' tasks,
                l @ completed_days ''Low'' tasks)"
  using assms
proof (induction tasks arbitrary: h m l)
  case Nil
  show ?case by (simp add: completed_days_def)
next
  case (Cons t ts)
  show ?case
  proof (cases "completedAt t")
    case None
    with Cons show ?thesis by (simp add: completed_days_def)
  next
    case (Some c)
    with Cons.prems have "priority t \<in> {''High'', ''Medium'', ''Low''}" by simp
    then consider "priority t = ''High''" | "priority t = ''Medium''" | "priority t = ''Low''"
      by blast
    then show ?thesis
    proof cases
      case 1
      with Some Cons show ?thesis by (simp add: completed_days_def Let_def)
    next
      case 2
      with Some Cons show ?thesis by (simp add: completed_days_def Let_def)
    next
      case 3
      with Some Cons show ?thesis by (simp add: completed_days_def Let_def)
    qed
  qed
qed

text \<open>
  Claim C9, as stated for every task collection, fails: \<open>groups\<close> has the three keys
  High, Medium and Low only, so a completed task with any other priority makes
  \<open>groups[t.priority].push\<close> throw, and the call reports no bucket at all, not even
  the High bucket that holds a task completed in one day.
\<close>

theorem computeVelocityByPriority_counterexample:
  "computeVelocityByPriority [finished ''High'' 86400000, finished ''Urgent'' 86400000]
     = Inl TypeError
   \<and> computeVelocityByPriority_B [finished ''High'' 86400000, finished ''Urgent'' 86400000]
     = Inl TypeError
   \<and> completed_days ''High'' [finished ''High'' 86400000, finished ''Urgent'' 86400000] = [1]"
  by (simp add: computeVelocityByPriority_def computeVelocityByPriority_B_def finished_def
      completed_days_def daysBetween_def)

text \<open>
  Claim C9, amended.  For every task collection whose completed tasks have the priority
  High, Medium or Low, each bucket of \<open>computeVelocityByPriority\<close> (in either copy of the
  module) reports the mean of \<open>daysBetween createdAt completedAt\<close> over the tasks of that
  priority that have a \<open>completedAt\<close>, and as median the element at index
  \<open>floor (n / 2)\<close> of those \<open>n\<close> values sorted ascending; a bucket without completed
  tasks reports 0 and 0.
\<close>

theorem computeVelocityByPriority_report:
  assumes "\<forall>t\<in>set tasks. completedAt t \<noteq> None \<longrightarrow> priority t \<in> {''High'', ''Medium'', ''Low''}"
  shows "computeVelocityByPriority tasks
           = Inr \<lparr> high = bucket_report (completed_days ''High'' tasks),
                   medium = bucket_report (completed_days ''Medium'' tasks),
                   low = bucket_report (completed_days ''Low'' tasks) \<rparr>
         \<and> computeVelocityByPriority_B tasks = computeVelocityByPriority tasks
         \<and> bucket_report [] = \<lparr> avgDays = 0, medianDays = 0 \<rparr>
         \<and> (\<forall>ds. ds \<noteq> [] \<longrightarrow>
               avgDays (bucket_report ds) = sum_list (map real_of_int ds) / real (length ds)
               \<and> medianDays (bucket_report ds) = sort ds ! (length ds div 2))"
  using collect_days_eq [OF assms, of "[]" "[]" "[]"]
  by (simp add: computeVelocityByPriority_def computeVelocityByPriority_B_def
      bucket_stats_report bucket_stats_B_report bucket_report_def mean_def)

lemma sprint_days:
  "completed_days ''High'' sprint = [1, 7, 3, 5]"
  "completed_days ''Medium'' sprint = []"
  "completed_days ''Low'' sprint = []"
  by (simp_all add: completed_days_def sprint_def finished_def task_A_def daysBetween_def)

lemma sprint_priorities:
  "\<forall>t\<in>set sprint. completedAt t \<noteq> None \<longrightarrow> priority t \<in> {''High'', ''Medium'', ''Low''}"
  by (simp add: sprint_def finished_def task_A_def)

theorem computeVelocityByPriority_report_witness:
  "computeVelocityByPriority sprint
     = Inr \<lparr> high = \<lparr> avgDays = 4, medianDays = 5 \<rparr>,
             medium = \<lparr> avgDays = 0, medianDays = 0 \<rparr>,
             low = \<lparr> avgDays = 0, medianDays = 0 \<rparr> \<rparr>
   \<and> computeVelocityByPriority_B sprint = computeVelocityByPriority sprint"
proof -
  note v = computeVelocityByPriority_report [OF sprint_priorities]
  have "computeVelocityByPriority sprint
          = Inr \<lparr> high = bucket_report [1, 7, 3, 5], medium = bucket_report [],
                  low = bucket_report [] \<rparr>"
    using v by (simp add: sprint_days)
  moreover have "bucket_report [1, 7, 3, 5] = \<lparr> avgDays = 4, medianDays = 5 \<rparr>"
    by (simp add: bucket_report_def mean_def)
  moreover have "bucket_report [] = \<lparr> avgDays = 0, medianDays = 0 \<rparr>"
    by (simp add: bucket_report_def)
  moreover have "computeVelocityByPriority_B sprint = computeVelocityByPriority sprint"
    using v by simp
  ultimately show ?thesis by simp
qed

section \<open>Properties of the week buckets\<close>

text \<open>The year of a day is the one year whose 1 January is not after it and whose next is.\<close>

lemma year_down_le: "DayFromYear (year_down y d) \<le> d"
  by (induction y d rule: year_down.induct) (simp add: year_down.simps)

lemma year_up_bracket:
  "DayFromYear y \<le> d \<Longrightarrow> DayFromYear (year_up y d) \<le> d \<and> d < DayFromYear (year_up y d + 1)"
  by (induction y d rule: year_up.induct) (simp add: year_up.simps)

lemma year_of_day_bracket:
  "DayFromYear (year_of_day d) \<le> d \<and> d < DayFromYear (year_of_day d + 1)"
  unfolding year_of_day_def by (rule year_up_bracket) (rule year_down_le)

lemma DayFromYear_strict_mono: "a < b \<Longrightarrow> DayFromYear a < DayFromYear b"
proof -
  have "DayFromYear a < DayFromYear (a + 1 + int n)" for n
  proof (induction n)
    case 0
    show ?case using DayFromYear_mono [of a] by simp
  next
    case (Suc n)
    then show ?case using DayFromYear_mono [of "a + 1 + int n"] by (simp add: algebra_simps)
  qed
  moreover assume "a < b"
  then have "b = a + 1 + int (nat (b - a - 1))" by simp
  ultimately show ?thesis by metis
qed

lemma year_of_day_unique:
  assumes "DayFromYear y \<le> d" "d < DayFromYear (y + 1)"
  shows "year_of_day d = y"
proof -
  let ?z = "year_of_day d"
  have z: "DayFromYear ?z \<le> d" "d < DayFromYear (?z + 1)"
    using year_of_day_bracket by simp_all
  have "\<not> ?z < y"
  proof
    assume "?z < y"
    then have "DayFromYear (?z + 1) \<le> DayFromYear y"
      using DayFromYear_strict_mono [of "?z + 1" y] by (cases "?z + 1 = y") auto
    with z assms show False by linarith
  qed
  moreover have "\<not> y < ?z"
  proof
    assume "y < ?z"
    then have "DayFromYear (y + 1) \<le> DayFromYear ?z"
      using DayFromYear_strict_mono [of "y + 1" ?z] by (cases "y + 1 = ?z") auto
    with z assms show False by linarith
  qed
  ultimately show ?thesis by simp
qed

text \<open>The week number in terms of day numbers: the Thursday of the week decides.\<close>

lemma Day_midnight: "Day (n * msPerDay) = n"
  by (simp add: Day_def msPerDay_def)

lemma getUTCDay_midnight: "getUTCDay (n * msPerDay) = (n + 4) mod 7"
  by (simp add: getUTCDay_def Day_midnight)

lemma shift_days: "n * msPerDay + (4 - k) * msPerDay = (n + 4 - k) * msPerDay"
  by (simp add: algebra_simps)

lemma getUTCFullYear_midnight: "getUTCFullYear (th * msPerDay) = year_of_day th"
  by (simp add: getUTCFullYear_def Day_midnight)

lemma day_difference: "real_of_int (a * msPerDay - b * msPerDay) / 86400000 = real_of_int (a - b)"
proof -
  have "a * msPerDay - b * msPerDay = (a - b) * 86400000"
    by (simp add: msPerDay_def algebra_simps)
  then show ?thesis by simp
qed

lemma getWeekNumber_days:
  "getWeekNumber d =
     (let n = Day d;
          w = (n + 4) mod 7;
          th = n + 4 - (if w = 0 then 7 else w)
      in \<lceil>(real_of_int (th - DayFromYear (year_of_day th)) + 1) / 7\<rceil>)"
  unfolding getWeekNumber_def Let_def getUTCDay_midnight shift_days getUTCFullYear_midnight
    day_difference ..


lemma week_feb26: "getWeekNumber 1708905600000 = 9"
proof -
  have d: "Day 1708905600000 = 19779" by (simp add: Day_def msPerDay_def)
  have y: "year_of_day 19782 = 2024"
    by (rule year_of_day_unique) (simp_all add: DayFromYear_def)
  show ?thesis unfolding getWeekNumber_days Let_def d by (simp add: y DayFromYear_def)
qed

lemma week_mar04: "getWeekNumber 1709510400000 = 10"
proof -
  have d: "Day 1709510400000 = 19786" by (simp add: Day_def msPerDay_def)
  have y: "year_of_day 19789 = 2024"
    by (rule year_of_day_unique) (simp_all add: DayFromYear_def)
  show ?thesis unfolding getWeekNumber_days Let_def d by (simp add: y DayFromYear_def)
qed

lemma week_dec30: "getWeekNumber 1735516800000 = 1"
proof -
  have d: "Day 1735516800000 = 20087" by (simp add: Day_def msPerDay_def)
  have y: "year_of_day 20090 = 2025"
    by (rule year_of_day_unique) (simp_all add: DayFromYear_def)
  show ?thesis unfolding getWeekNumber_days Let_def d by (simp add: y DayFromYear_def)
qed

lemma years_2024:
  "getUTCFullYear 1708905600000 = 2024" "getUTCFullYear 1709510400000 = 2024"
  "getUTCFullYear 1735516800000 = 2024"
proof -
  have "year_of_day 19779 = 2024" "year_of_day 19786 = 2024" "year_of_day 20087 = 2024"
    by (rule year_of_day_unique; simp add: DayFromYear_def)+
  then show "getUTCFullYear 1708905600000 = 2024" "getUTCFullYear 1709510400000 = 2024"
    "getUTCFullYear 1735516800000 = 2024"
    by (simp_all add: getUTCFullYear_def Day_def msPerDay_def)
qed

lemma shown_numbers: "show_int 2024 = ''2024''" "show_int 9 = ''9''" "show_int 10 = ''10''" "show_int 1 = ''1''"
  by (simp_all add: show_int_def show_nat.simps digit_char_def)

lemma week_keys: "week_key 1708905600000 = ''2024-W9''" "week_key 1709510400000 = ''2024-W10''" 
  "week_key 1735516800000 = ''2024-W1''"
  by (simp_all add: week_key_def week_feb26 week_mar04 week_dec30 years_2024 shown_numbers)

lemma compare_weeks:
  "code_unit_compare ''2024-W10'' ''2024-W9'' = - 1" "code_unit_compare ''2024-W9'' ''2024-W10'' = 1"
  by (simp_all add: code_unit_compare_def less_char_def)


text \<open>1 January 2021, a Friday, lies in ISO week 53 of 2020.\<close>

lemma week_jan01_2021: "week_key 1609459200000 = ''2021-W53''"
proof -
  have d: "Day 1609459200000 = 18628" by (simp add: Day_def msPerDay_def)
  have y: "year_of_day 18627 = 2020" "year_of_day 18628 = 2021"
    by (rule year_of_day_unique; simp add: DayFromYear_def)+
  have w: "getWeekNumber 1609459200000 = 53"
    unfolding getWeekNumber_days Let_def d by (simp add: y DayFromYear_def)
  have s: "show_int 2021 = ''2021''" "show_int 53 = ''53''"
    by (simp_all add: show_int_def show_nat.simps digit_char_def)
  show ?thesis by (simp add: week_key_def w getUTCFullYear_def d y s)
qed

text \<open>With a consistent collation the rows come out in the collation's order of their keys.\<close>

lemma computeThroughputByWeek_sorted_by_key:
  assumes "consistent_collation lc"
  shows "sorted_wrt (\<lambda>a b. lc (fst a) (fst b) \<le> 0) (computeThroughputByWeek lc tasks)"
proof -
  have "sorted_wrt (\<lambda>a b. \<not> sorts_after (by_key lc a b)) (array_sort (by_key lc) (tally [] tasks))"
  proof (rule sorted_wrt_array_sort [where A = UNIV])
    fix a b :: "string \<times> nat \<times> jsnum"
    assume "sorts_after (by_key lc a b)"
    then show "\<not> sorts_after (by_key lc b a)"
      using collation_swap [OF assms, of "fst a" "fst b"] by (simp add: by_key_def)
  next
    fix a b c :: "string \<times> nat \<times> jsnum"
    assume "\<not> sorts_after (by_key lc a b)" "\<not> sorts_after (by_key lc b c)"
    then show "\<not> sorts_after (by_key lc a c)"
      using collation_trans [OF assms, of "fst a" "fst b" "fst c"] by (simp add: by_key_def not_less)
  qed simp
  then show ?thesis
    by (simp add: computeThroughputByWeek_def by_key_def not_less)
qed

text \<open>
  Claim C2 on two tasks completed on Monday 26 February 2024 (ISO week 9) and on Monday
  4 March 2024 (ISO week 10): the keys are \<open>2024-W9\<close> and \<open>2024-W10\<close>, without padding,
  and the later week comes first.  The year of the key is the calendar year of the date:
  Monday 30 December 2024, in ISO week 1 of 2025, gets \<open>2024-W1\<close>.
\<close>

theorem computeThroughputByWeek_week_10_before_9:
  "computeThroughputByWeek code_unit_compare
     [finished ''High'' 1708905600000, finished ''High'' 1709510400000]
   = [(''2024-W10'', 1, Fin 100), (''2024-W9'', 1, Fin 100)]
   \<and> week_key 1735516800000 = ''2024-W1''"
  by (simp add: computeThroughputByWeek_def finished_def week_keys array_sort_def by_key_def
      compare_weeks fin_small)

section \<open>Finiteness of the engine's outputs\<close>

subsection \<open>Funnel\<close>



subsection \<open>ROI and priority weight\<close>




subsection \<open>Velocity\<close>




subsection \<open>The buckets of throughput and cohorts\<close>













subsection \<open>The claim about finiteness\<close>










end
